theory Spec2Isabelle
  imports Main "HOL-Library.Sublist"
begin

section \<open>Python values\<close>

text \<open>
  A Python \<open>str\<close> is a sequence of Unicode code points, so it is modelled as a list of
  naturals.  \<open>str\<close> turns an ASCII literal of the source into such a list.
\<close>

type_synonym pystr = "nat list"

definition str :: "string \<Rightarrow> pystr" where
  "str s = map (of_char :: char \<Rightarrow> nat) s"

text \<open>
  The objects the client handles are the ones \<open>json\<close> decoding produces: \<open>None\<close>,
  booleans, unbounded integers, strings, lists and dicts with string keys.  A dict keeps
  its insertion order, so it is an association list; a Python dict has no repeated key.
  Floating-point numbers are not part of the model.
\<close>

datatype pyval =
    PNone
  | PBool bool
  | PInt int
  | PStr pystr
  | PList "pyval list"
  | PDict "(pystr \<times> pyval) list"

text \<open>
  The exceptions the code can meet.  \<open>RequestException\<close> stands for the class
  \<open>requests.exceptions.RequestException\<close> and its subclasses; \<open>OtherError\<close> for any
  other subclass of \<open>Exception\<close> the transport may raise.  Each one carries \<open>str(e)\<close>,
  except \<open>OSError\<close> and \<open>UnicodeEncodeError\<close>, raised by \<open>open\<close> and by the write: they
  carry the file name and the codec's reason.
\<close>

datatype exn =
    RequestException pystr
  | AttributeError pystr
  | TypeError pystr
  | UnicodeEncodeError pystr
  | OSError pystr
  | OtherError pystr

fun exn_text :: "exn \<Rightarrow> pystr" where
  "exn_text (RequestException m) = m"
| "exn_text (AttributeError m) = m"
| "exn_text (TypeError m) = m"
| "exn_text (UnicodeEncodeError m) = m"
| "exn_text (OSError m) = m"
| "exn_text (OtherError m) = m"

fun is_request_exception :: "exn \<Rightarrow> bool" where
  "is_request_exception (RequestException m) = True"
| "is_request_exception e = False"

text \<open>Truth value of an object, as \<open>if x:\<close> and \<open>not x\<close> test it.\<close>

fun truthy :: "pyval \<Rightarrow> bool" where
  "truthy PNone = False"
| "truthy (PBool b) = b"
| "truthy (PInt n) = (n \<noteq> 0)"
| "truthy (PStr s) = (s \<noteq> [])"
| "truthy (PList xs) = (xs \<noteq> [])"
| "truthy (PDict kvs) = (kvs \<noteq> [])"

text \<open>An argument declared \<open>Optional[str]\<close> is \<open>None\<close> or a string.\<close>

fun truthy_opt :: "pystr option \<Rightarrow> bool" where
  "truthy_opt None = False"
| "truthy_opt (Some s) = (s \<noteq> [])"

fun type_name :: "pyval \<Rightarrow> pystr" where
  "type_name PNone = str ''NoneType''"
| "type_name (PBool b) = str ''bool''"
| "type_name (PInt n) = str ''int''"
| "type_name (PStr s) = str ''str''"
| "type_name (PList xs) = str ''list''"
| "type_name (PDict kvs) = str ''dict''"

definition no_attribute :: "pyval \<Rightarrow> string \<Rightarrow> exn" where
  "no_attribute v a =
     AttributeError (str [CHR 0x27] @ type_name v @ str [CHR 0x27]
       @ str '' object has no attribute '' @ str [CHR 0x27] @ str a @ str [CHR 0x27])"

text \<open>\<open>obj.get(key, default)\<close>: a dict lookup; any other object has no \<open>get\<close>.\<close>

fun py_get :: "pyval \<Rightarrow> pystr \<Rightarrow> pyval \<Rightarrow> exn + pyval" where
  "py_get (PDict kvs) k d = Inr (case map_of kvs k of None \<Rightarrow> d | Some v \<Rightarrow> v)"
| "py_get v k d = Inl (no_attribute v ''get'')"

text \<open>\<open>d[key] = value\<close>: replaces the value of a present key, appends a new key.\<close>

fun dict_set :: "(pystr \<times> pyval) list \<Rightarrow> pystr \<Rightarrow> pyval \<Rightarrow> (pystr \<times> pyval) list" where
  "dict_set [] k v = [(k, v)]"
| "dict_set ((k', v') # kvs) k v =
     (if k' = k then (k, v) # kvs else (k', v') # dict_set kvs k v)"

section \<open>The transport\<close>

text \<open>
  \<open>requests.post(url, json=payload, headers=headers)\<close> is the only contact with the
  outside.  The remote side is a function from the request to what the call does: it
  raises, or it returns a response.  A response has its HTTP status, the text
  \<open>raise_for_status\<close> would put into its \<open>HTTPError\<close>, and what \<open>response.json()\<close> does:
  raise or return the decoded body.
\<close>

record request =
  url :: pystr
  headers :: "(pystr \<times> pyval) list"
  payload :: pyval

record response =
  status_code :: int
  status_error :: pystr
  json_body :: "exn + pyval"

type_synonym transport = "request \<Rightarrow> exn + response"

definition raise_for_status :: "response \<Rightarrow> exn option" where
  "raise_for_status r =
     (if 400 \<le> status_code r \<and> status_code r < 600
      then Some (RequestException (status_error r)) else None)"

section \<open>The client\<close>

record EmailAPI =
  base_url :: pystr
  token :: pyval

definition API_BASE_URL :: pystr where
  "API_BASE_URL = str ''https://mail.faiz.us.kg''"

definition rstrip_slash :: "pystr \<Rightarrow> pystr" where
  "rstrip_slash s = rev (dropWhile (\<lambda>c. c = 47) (rev s))"

definition init :: "pystr option \<Rightarrow> EmailAPI" where
  "init b = \<lparr>base_url = rstrip_slash (if truthy_opt b then the b else API_BASE_URL),
             token = PNone\<rparr>"

definition error_result :: "pystr \<Rightarrow> pyval" where
  "error_result m = PDict [(str ''code'', PInt (- 1)), (str ''message'', PStr m)]"

text \<open>The text of the source's message for a missing token.\<close>

definition token_required :: pystr where
  "token_required =
     [0x8BF7, 0x5148, 0x8C03, 0x7528] @ str '' get_token() '' @ [0x751F, 0x6210]
       @ str ''token''"

subsection \<open>\<open>get_mail_list\<close>\<close>

text \<open>Lines 94 to 110: the required fields, then each optional one when it is truthy.\<close>

definition mail_payload ::
  "pystr \<Rightarrow> pystr option \<Rightarrow> pystr option \<Rightarrow> pystr option \<Rightarrow> pystr option
     \<Rightarrow> pystr \<Rightarrow> int \<Rightarrow> int \<Rightarrow> int \<Rightarrow> (pystr \<times> pyval) list" where
  "mail_payload hd_email send_name send_email subject content send_sort mail_type num sz =
     (let p0 = [(str ''toEmail'', PStr hd_email),
                (str ''timeSort'', PStr send_sort),
                (str ''type'', PInt mail_type),
                (str ''num'', PInt num),
                (str ''size'', PInt (min sz 20))];
          p1 = (if truthy_opt send_name then dict_set p0 (str ''sendName'') (PStr (the send_name)) else p0);
          p2 = (if truthy_opt send_email then dict_set p1 (str ''sendEmail'') (PStr (the send_email)) else p1);
          p3 = (if truthy_opt subject then dict_set p2 (str ''subject'') (PStr (the subject)) else p2);
          p4 = (if truthy_opt content then dict_set p3 (str ''content'') (PStr (the content)) else p3)
      in p4)"

definition mail_request ::
  "EmailAPI \<Rightarrow> pystr \<Rightarrow> pystr option \<Rightarrow> pystr option \<Rightarrow> pystr option \<Rightarrow> pystr option
     \<Rightarrow> pystr \<Rightarrow> int \<Rightarrow> int \<Rightarrow> int \<Rightarrow> request" where
  "mail_request self hd_email send_name send_email subject content send_sort mail_type num sz =
     \<lparr>url = base_url self @ str ''/api/public/emailList'',
      headers = [(str ''Authorization'', token self)],
      payload = PDict (mail_payload hd_email send_name send_email subject content
                         send_sort mail_type num sz)\<rparr>"

text \<open>
  The result is the client after the call, the requests handed to the transport during
  the call, and the returned dict, or the exception that leaves the method: only a
  \<open>RequestException\<close> is caught.
\<close>

definition get_mail_list ::
  "transport \<Rightarrow> EmailAPI \<Rightarrow> pystr \<Rightarrow> pystr option \<Rightarrow> pystr option \<Rightarrow> pystr option
     \<Rightarrow> pystr option \<Rightarrow> pystr \<Rightarrow> int \<Rightarrow> int \<Rightarrow> int
     \<Rightarrow> EmailAPI \<times> request list \<times> (exn + pyval)" where
  "get_mail_list post self hd_email send_name send_email subject content send_sort
       mail_type num sz =
     (if \<not> truthy (token self) then (self, [], Inr (error_result token_required))
      else
        let req = mail_request self hd_email send_name send_email subject content
                    send_sort mail_type num sz
        in case post req of
             Inl e \<Rightarrow>
               (self, [req], if is_request_exception e then Inr (error_result (exn_text e)) else Inl e)
           | Inr r \<Rightarrow>
               (case raise_for_status r of
                  Some e \<Rightarrow> (self, [req], Inr (error_result (exn_text e)))
                | None \<Rightarrow>
                    (case json_body r of
                       Inl e \<Rightarrow>
                         (self, [req],
                          if is_request_exception e then Inr (error_result (exn_text e)) else Inl e)
                     | Inr data \<Rightarrow> (self, [req], Inr data))))"

text \<open>The field of a request's JSON payload, if the payload has it.\<close>

definition payload_field :: "request \<Rightarrow> pystr \<Rightarrow> pyval option" where
  "payload_field req k = (case payload req of PDict kvs \<Rightarrow> map_of kvs k | _ \<Rightarrow> None)"

subsection \<open>\<open>get_token\<close>\<close>

definition token_request :: "EmailAPI \<Rightarrow> pystr \<Rightarrow> pystr \<Rightarrow> pystr \<Rightarrow> request" where
  "token_request self email password jwt_secret =
     \<lparr>url = base_url self @ str ''/api/public/genToken'',
      headers = [(str ''Authorization'', PStr jwt_secret)],
      payload = PDict [(str ''email'', PStr email), (str ''password'', PStr password)]\<rparr>"

text \<open>
  Every exception inside the \<open>try\<close> is caught (\<open>except Exception\<close>): one raised by the
  transport, by \<open>response.json()\<close>, or by \<open>.get\<close> on a body that is not a dict.  The
  method then returns the code \<open>-1\<close> dict and has not assigned the token.
\<close>

definition get_token ::
  "transport \<Rightarrow> EmailAPI \<Rightarrow> pystr \<Rightarrow> pystr \<Rightarrow> pystr \<Rightarrow> EmailAPI \<times> request list \<times> pyval" where
  "get_token post self email password jwt_secret =
     (let req = token_request self email password jwt_secret
      in case post req of
           Inl e \<Rightarrow> (self, [req], error_result (exn_text e))
         | Inr r \<Rightarrow>
             (case json_body r of
                Inl e \<Rightarrow> (self, [req], error_result (exn_text e))
              | Inr data \<Rightarrow>
                  (case py_get data (str ''code'') PNone of
                     Inl e \<Rightarrow> (self, [req], error_result (exn_text e))
                   | Inr c \<Rightarrow>
                       if c = PInt 200 then
                         (case py_get data (str ''data'') (PDict []) of
                            Inl e \<Rightarrow> (self, [req], error_result (exn_text e))
                          | Inr d \<Rightarrow>
                              (case py_get d (str ''token'') PNone of
                                 Inl e \<Rightarrow> (self, [req], error_result (exn_text e))
                               | Inr t \<Rightarrow> (self\<lparr>token := t\<rparr>, [req], data)))
                       else (self, [req], data))))"

subsection \<open>Handling the mail-list result (\<open>test_mail_functions\<close>)\<close>

text \<open>
  Lines 178 and 179: the \<open>data\<close> field, an empty list when absent; itself when it is a
  list, otherwise its \<open>list\<close> field, an empty list when absent.
\<close>

definition extract_mail_list :: "pyval \<Rightarrow> exn + pyval" where
  "extract_mail_list mail_result =
     (case py_get mail_result (str ''data'') (PList []) of
        Inl e \<Rightarrow> Inl e
      | Inr data_content \<Rightarrow>
          (case data_content of
             PList xs \<Rightarrow> Inr data_content
           | _ \<Rightarrow> py_get data_content (str ''list'') (PList [])))"

text \<open>
  Lines 176 to 179: the list is extracted when the embedded code is 200; \<open>None\<close> stands
  for the other branch, which prints the failure.
\<close>

definition result_mail_list :: "pyval \<Rightarrow> exn + pyval option" where
  "result_mail_list mail_result =
     (case py_get mail_result (str ''code'') PNone of
        Inl e \<Rightarrow> Inl e
      | Inr c \<Rightarrow>
          if c = PInt 200 then
            (case extract_mail_list mail_result of Inl e \<Rightarrow> Inl e | Inr l \<Rightarrow> Inr (Some l))
          else Inr None)"

text \<open>
  \<open>a in b\<close> on two strings: \<open>a\<close> occurs in \<open>b\<close> as a contiguous run, searched from the
  left.
\<close>

fun str_contains :: "pystr \<Rightarrow> pystr \<Rightarrow> bool" where
  "str_contains t [] = (t = [])"
| "str_contains t (c # cs) = (prefix t (c # cs) \<or> str_contains t cs)"

text \<open>What a \<open>for\<close> iterates over: the items of a list, the keys of a dict, the
  characters of a string; the other objects are not iterable.\<close>

fun py_iter :: "pyval \<Rightarrow> exn + pyval list" where
  "py_iter (PList xs) = Inr xs"
| "py_iter (PDict kvs) = Inr (map (\<lambda>kv. PStr (fst kv)) kvs)"
| "py_iter (PStr s) = Inr (map (\<lambda>c. PStr [c]) s)"
| "py_iter v =
     Inl (TypeError (str [CHR 0x27] @ type_name v @ str [CHR 0x27]
            @ str '' object is not iterable''))"

text \<open>
  \<open>str.lower\<close> follows the Unicode case tables, which are no part of the repository: it
  is a parameter \<open>lower\<close> of the model.  Only a string has the method.
\<close>

fun py_lower :: "(pystr \<Rightarrow> pystr) \<Rightarrow> pyval \<Rightarrow> exn + pystr" where
  "py_lower lower (PStr s) = Inr (lower s)"
| "py_lower lower v = Inl (no_attribute v ''lower'')"

text \<open>The condition of the comprehension in line 183, for one \<open>mail\<close>.\<close>

definition subject_matches :: "(pystr \<Rightarrow> pystr) \<Rightarrow> pystr \<Rightarrow> pyval \<Rightarrow> exn + bool" where
  "subject_matches lower SUBJECT mail =
     (case py_get mail (str ''subject'') (PStr []) of
        Inl e \<Rightarrow> Inl e
      | Inr s \<Rightarrow>
          (case py_lower lower s of
             Inl e \<Rightarrow> Inl e
           | Inr ls \<Rightarrow> Inr (str_contains (lower SUBJECT) ls)))"

text \<open>The comprehension: it stops at the first mail whose condition raises.\<close>

fun filter_subject :: "(pystr \<Rightarrow> pystr) \<Rightarrow> pystr \<Rightarrow> pyval list \<Rightarrow> exn + pyval list" where
  "filter_subject lower SUBJECT [] = Inr []"
| "filter_subject lower SUBJECT (mail # mails) =
     (case subject_matches lower SUBJECT mail of
        Inl e \<Rightarrow> Inl e
      | Inr b \<Rightarrow>
          (case filter_subject lower SUBJECT mails of
             Inl e \<Rightarrow> Inl e
           | Inr kept \<Rightarrow> Inr (if b then mail # kept else kept)))"

text \<open>Lines 182 and 183, with the module constants \<open>LOCAL_FILTER\<close> and \<open>SUBJECT\<close> as
  arguments.\<close>

definition local_filter ::
  "(pystr \<Rightarrow> pystr) \<Rightarrow> bool \<Rightarrow> pystr \<Rightarrow> pyval \<Rightarrow> exn + pyval" where
  "local_filter lower LOCAL_FILTER SUBJECT mail_list =
     (if LOCAL_FILTER \<and> SUBJECT \<noteq> [] \<and> truthy mail_list then
        (case py_iter mail_list of
           Inl e \<Rightarrow> Inl e
         | Inr mails \<Rightarrow>
             (case filter_subject lower SUBJECT mails of
                Inl e \<Rightarrow> Inl e
              | Inr kept \<Rightarrow> Inr (PList kept)))
      else Inr mail_list)"

text \<open>
  On ASCII text \<open>str.lower\<close> maps \<open>A\<close> to \<open>Z\<close> onto \<open>a\<close> to \<open>z\<close> and keeps the rest; this
  instance of the parameter serves the examples.
\<close>

definition ascii_lower :: "pystr \<Rightarrow> pystr" where
  "ascii_lower s = map (\<lambda>c. if 65 \<le> c \<and> c \<le> 90 then c + 32 else c) s"

text \<open>The subject of a message as line 183 reads it: the empty string when the field
  is absent.\<close>

fun subject_of :: "pyval \<Rightarrow> pystr" where
  "subject_of (PDict kvs) =
     (case map_of kvs (str ''subject'') of Some (PStr s) \<Rightarrow> s | _ \<Rightarrow> [])"
| "subject_of v = []"

text \<open>A message is a dict whose \<open>subject\<close>, when it has one, is a string.\<close>

fun is_message :: "pyval \<Rightarrow> bool" where
  "is_message (PDict kvs) =
     (case map_of kvs (str ''subject'') of
        None \<Rightarrow> True | Some (PStr s) \<Rightarrow> True | Some v \<Rightarrow> False)"
| "is_message v = False"

subsection \<open>\<open>save_emails_to_json\<close>\<close>

text \<open>
  \<open>json.dump(mail_list, f, ensure_ascii=False, indent=2)\<close> writes the text that the
  encoder of Python's \<open>json\<close> module produces for these settings.  \<open>int.__repr__\<close>
  gives the decimal digits, with a minus sign for a negative number.
\<close>

fun digits :: "nat \<Rightarrow> pystr" where
  "digits n = (if n < 10 then [48 + n] else digits (n div 10) @ [48 + n mod 10])"

definition int_repr :: "int \<Rightarrow> pystr" where
  "int_repr i = (if i < 0 then 0x2D # digits (nat (- i)) else digits (nat i))"

definition hex_digit :: "nat \<Rightarrow> nat" where
  "hex_digit d = (if d < 10 then 48 + d else 87 + d)"

text \<open>
  With \<open>ensure_ascii=False\<close> a string is quoted and only these characters are replaced:
  the backslash, the double quote, and the control characters below \<open>0x20\<close>, which
  become \<open>\b\<close>, \<open>\f\<close>, \<open>\n\<close>, \<open>\r\<close>, \<open>\t\<close> or \<open>\u\<close> and four lower-case hexadecimal
  digits.  Every other character is copied.
\<close>

definition escape_char :: "nat \<Rightarrow> pystr" where
  "escape_char c =
     (if c = 0x5C then [0x5C, 0x5C]
      else if c = 0x22 then [0x5C, 0x22]
      else if c = 0x08 then [0x5C, 0x62]
      else if c = 0x0C then [0x5C, 0x66]
      else if c = 0x0A then [0x5C, 0x6E]
      else if c = 0x0D then [0x5C, 0x72]
      else if c = 0x09 then [0x5C, 0x74]
      else if c < 0x20 then
        [0x5C, 0x75, hex_digit (c div 4096 mod 16), hex_digit (c div 256 mod 16),
         hex_digit (c div 16 mod 16), hex_digit (c mod 16)]
      else [c])"

definition encode_basestring :: "pystr \<Rightarrow> pystr" where
  "encode_basestring s = 0x22 # concat (map escape_char s) @ [0x22]"

text \<open>With \<open>indent=2\<close> every item starts on a line of its own, two spaces deeper per
  level; the item separator is a comma and the key separator a colon and a space.\<close>

definition newline_indent :: "nat \<Rightarrow> pystr" where
  "newline_indent level = 0x0A # replicate (2 * level) 0x20"

fun encode :: "nat \<Rightarrow> pyval \<Rightarrow> pystr"
  and encode_items :: "nat \<Rightarrow> pyval list \<Rightarrow> pystr"
  and encode_pairs :: "nat \<Rightarrow> (pystr \<times> pyval) list \<Rightarrow> pystr" where
  "encode level PNone = str ''null''"
| "encode level (PBool b) = (if b then str ''true'' else str ''false'')"
| "encode level (PInt i) = int_repr i"
| "encode level (PStr s) = encode_basestring s"
| "encode level (PList []) = str ''[]''"
| "encode level (PList (v # vs)) =
     0x5B # newline_indent (level + 1) @ encode_items (level + 1) (v # vs)
       @ newline_indent level @ [0x5D]"
| "encode level (PDict []) = str ''{}''"
| "encode level (PDict (kv # kvs)) =
     0x7B # newline_indent (level + 1) @ encode_pairs (level + 1) (kv # kvs)
       @ newline_indent level @ [0x7D]"
| "encode_items level [] = []"
| "encode_items level [v] = encode level v"
| "encode_items level (v # w # vs) =
     encode level v @ 0x2C # newline_indent level @ encode_items level (w # vs)"
| "encode_pairs level [] = []"
| "encode_pairs level [(k, v)] = encode_basestring k @ str '': '' @ encode level v"
| "encode_pairs level ((k, v) # kv # kvs) =
     encode_basestring k @ str '': '' @ encode level v
       @ 0x2C # newline_indent level @ encode_pairs level (kv # kvs)"

definition dumps :: "pyval \<Rightarrow> pystr" where
  "dumps obj = encode 0 obj"

text \<open>
  The file is opened with \<open>encoding='utf-8'\<close> and the default error handling, so the
  text is written as UTF-8 and a surrogate code point raises \<open>UnicodeEncodeError\<close>.
  Bytes are naturals below 256.  A Python string has no code point from \<open>0x110000\<close> on;
  the model gives no bytes for one.
\<close>

type_synonym bytes = "nat list"

definition utf8_char :: "nat \<Rightarrow> bytes option" where
  "utf8_char c =
     (if c < 0x80 then Some [c]
      else if c < 0x800 then Some [0xC0 + c div 64, 0x80 + c mod 64]
      else if 0xD800 \<le> c \<and> c \<le> 0xDFFF then None
      else if c < 0x10000 then
        Some [0xE0 + c div 4096, 0x80 + c div 64 mod 64, 0x80 + c mod 64]
      else if c < 0x110000 then
        Some [0xF0 + c div 262144, 0x80 + c div 4096 mod 64, 0x80 + c div 64 mod 64,
              0x80 + c mod 64]
      else None)"

fun utf8_encode :: "pystr \<Rightarrow> bytes option" where
  "utf8_encode [] = Some []"
| "utf8_encode (c # cs) =
     (case utf8_char c of
        None \<Rightarrow> None
      | Some b \<Rightarrow> (case utf8_encode cs of None \<Rightarrow> None | Some bs \<Rightarrow> Some (b @ bs)))"

text \<open>
  The file system: the content of each file that exists, and the names \<open>open\<close> accepts
  for writing.  The clock is read as the text \<open>strftime("%Y%m%d_%H%M%S")\<close> gives.  The
  line separator is taken to be the line feed.  When the write raises, the exception
  leaves the function and the model does not say what is left in the file.
\<close>

record files =
  file_content :: "pystr \<Rightarrow> bytes option"
  writable :: "pystr \<Rightarrow> bool"

definition output_name :: "pystr \<Rightarrow> pystr option \<Rightarrow> pystr" where
  "output_name timestamp filename =
     (case filename of
        None \<Rightarrow> str ''emails_'' @ timestamp @ str ''.json''
      | Some f \<Rightarrow> f)"

definition save_emails_to_json ::
  "pystr \<Rightarrow> files \<Rightarrow> pyval \<Rightarrow> pystr option \<Rightarrow> exn + (pystr \<times> files)" where
  "save_emails_to_json timestamp fs mail_list filename =
     (let filename = output_name timestamp filename
      in if \<not> writable fs filename then Inl (OSError filename)
         else case utf8_encode (dumps mail_list) of
                None \<Rightarrow> Inl (UnicodeEncodeError (str ''surrogates not allowed''))
              | Some b \<Rightarrow> Inr (filename, fs\<lparr>file_content := (file_content fs)(filename \<mapsto> b)\<rparr>))"

subsection \<open>Reading the file back\<close>





definition is_digit :: "nat \<Rightarrow> bool" where
  "is_digit c = (48 \<le> c \<and> c \<le> 57)"

definition hex_value :: "nat \<Rightarrow> nat option" where
  "hex_value c =
     (if 48 \<le> c \<and> c \<le> 57 then Some (c - 48)
      else if 97 \<le> c \<and> c \<le> 102 then Some (c - 87)
      else if 65 \<le> c \<and> c \<le> 70 then Some (c - 55)
      else None)"

text \<open>The four hexadecimal digits after \<open>\u\<close>, and what follows them.\<close>

fun decode_uXXXX :: "pystr \<Rightarrow> (nat \<times> pystr) option" where
  "decode_uXXXX (h1 # h2 # h3 # h4 # r) =
     (case (hex_value h1, hex_value h2, hex_value h3, hex_value h4) of
        (Some a, Some b, Some c, Some d) \<Rightarrow> Some (a * 4096 + b * 256 + c * 16 + d, r)
      | _ \<Rightarrow> None)"
| "decode_uXXXX s = None"

text \<open>
  The string scanner, entered after the opening quote: it ends at the closing quote,
  resolves the escapes, joins a high and a low surrogate escape into one character, and
  refuses a raw control character.
\<close>

fun scanstring :: "pystr \<Rightarrow> pystr \<Rightarrow> (pystr \<times> pystr) option" where
  "scanstring acc [] = None"
| "scanstring acc (c # cs) =
     (if c = 0x22 then Some (rev acc, cs)
      else if c = 0x5C then
        (case cs of
           [] \<Rightarrow> None
         | e # r \<Rightarrow>
             if e = 0x22 then scanstring (0x22 # acc) r
             else if e = 0x5C then scanstring (0x5C # acc) r
             else if e = 0x2F then scanstring (0x2F # acc) r
             else if e = 0x62 then scanstring (0x08 # acc) r
             else if e = 0x66 then scanstring (0x0C # acc) r
             else if e = 0x6E then scanstring (0x0A # acc) r
             else if e = 0x72 then scanstring (0x0D # acc) r
             else if e = 0x74 then scanstring (0x09 # acc) r
             else if e = 0x75 then
               (case r of
                  h1 # h2 # h3 # h4 # r1 \<Rightarrow>
                    (case decode_uXXXX [h1, h2, h3, h4] of
                       None \<Rightarrow> None
                     | Some (uni, _) \<Rightarrow>
                         if 0xD800 \<le> uni \<and> uni \<le> 0xDBFF \<and> take 2 r1 = [0x5C, 0x75] then
                           (case r1 of
                              b # u # g1 # g2 # g3 # g4 # r2 \<Rightarrow>
                                (case decode_uXXXX [g1, g2, g3, g4] of
                                   None \<Rightarrow> None
                                 | Some (uni2, _) \<Rightarrow>
                                     if 0xDC00 \<le> uni2 \<and> uni2 \<le> 0xDFFF
                                     then scanstring
                                            ((0x10000 + (uni - 0xD800) * 1024 + (uni2 - 0xDC00)) # acc) r2
                                     else scanstring (uni # acc) r1)
                            | _ \<Rightarrow> None)
                         else scanstring (uni # acc) r1)
                | _ \<Rightarrow> None)
             else None)
      else if c < 0x20 then None
      else scanstring (c # acc) cs)"










subsection \<open>Notions for the round trip\<close>

text \<open>
  A code point that UTF-8 can carry: below \<open>0x110000\<close> and no surrogate.
\<close>

definition scalar :: "nat \<Rightarrow> bool" where
  "scalar c = (c < 0x110000 \<and> \<not> (0xD800 \<le> c \<and> c \<le> 0xDFFF))"

text \<open>All the characters of an object, keys and strings, in the order of the encoding;
  and the ones of a text that are not ASCII.\<close>

fun chars :: "pyval \<Rightarrow> pystr"
  and chars_items :: "pyval list \<Rightarrow> pystr"
  and chars_pairs :: "(pystr \<times> pyval) list \<Rightarrow> pystr" where
  "chars (PStr s) = s"
| "chars (PList vs) = chars_items vs"
| "chars (PDict kvs) = chars_pairs kvs"
| "chars v = []"
| "chars_items [] = []"
| "chars_items (v # vs) = chars v @ chars_items vs"
| "chars_pairs [] = []"
| "chars_pairs ((k, v) # kvs) = k @ chars v @ chars_pairs kvs"

definition non_ascii :: "pystr \<Rightarrow> pystr" where
  "non_ascii s = filter (\<lambda>c. 0x80 \<le> c) s"






subsection \<open>Example inputs\<close>

text \<open>A token endpoint that answers with the embedded code 200 and the token \<open>T\<close>, under
  the HTTP status 500; and one that refuses the credentials.\<close>

definition token_ok :: transport where
  "token_ok req = Inr \<lparr>status_code = 500, status_error = [],
     json_body = Inr (PDict [(str ''code'', PInt 200),
                             (str ''data'', PDict [(str ''token'', PStr (str ''T''))])])\<rparr>"

definition token_denied :: transport where
  "token_denied req = Inr \<lparr>status_code = 200, status_error = [],
     json_body = Inr (PDict [(str ''code'', PInt 401),
                             (str ''message'', PStr (str ''bad credentials''))])\<rparr>"

definition mail_verify :: pyval where
  "mail_verify = PDict [(str ''subject'', PStr (str ''Verify Your Email''))]"

definition mail_verify_now :: pyval where
  "mail_verify_now = PDict [(str ''subject'', PStr (str ''VERIFY your email now''))]"

definition mail_unrelated :: pyval where
  "mail_unrelated = PDict [(str ''subject'', PStr (str ''Unrelated''))]"

definition mail_no_subject :: pyval where
  "mail_no_subject = PDict [(str ''sendEmail'', PStr (str ''verify@x.y''))]"





section \<open>Properties\<close>

subsection \<open>Auxiliary facts\<close>

lemma str_eq_iff [simp]: "str a = str b \<longleftrightarrow> a = b"
  unfolding str_def by (rule inj_map_eq_map) (simp add: inj_on_def)

lemma str_Nil_iff [simp]: "str a = [] \<longleftrightarrow> a = []"
  by (simp add: str_def)

lemma map_of_dict_set:
  "map_of (dict_set kvs k v) k' = (if k' = k then Some v else map_of kvs k')"
  by (induction kvs) auto

lemma map_of_if_dict_set:
  "map_of (if c then dict_set kvs k v else kvs) k'
     = (if c \<and> k' = k then Some v else map_of kvs k')"
  by (simp add: map_of_dict_set)

lemma map_of_mail_payload:
  "map_of (mail_payload hd_email send_name send_email subject content send_sort mail_type num sz) k
     = (if truthy_opt content \<and> k = str ''content'' then Some (PStr (the content))
        else if truthy_opt subject \<and> k = str ''subject'' then Some (PStr (the subject))
        else if truthy_opt send_email \<and> k = str ''sendEmail'' then Some (PStr (the send_email))
        else if truthy_opt send_name \<and> k = str ''sendName'' then Some (PStr (the send_name))
        else map_of [(str ''toEmail'', PStr hd_email),
                (str ''timeSort'', PStr send_sort),
                (str ''type'', PInt mail_type),
                (str ''num'', PInt num),
                (str ''size'', PInt (min sz 20))] k)"
  unfolding mail_payload_def Let_def map_of_if_dict_set ..

lemma payload_field_mail_request:
  "payload_field (mail_request self hd_email send_name send_email subject content send_sort
       mail_type num sz) k
     = map_of (mail_payload hd_email send_name send_email subject content send_sort mail_type num sz) k"
  by (simp add: payload_field_def mail_request_def)


lemma get_mail_list_calls:
  "fst (snd (get_mail_list post self hd_email send_name send_email subject content send_sort
       mail_type num sz))
     = (if truthy (token self)
        then [mail_request self hd_email send_name send_email subject content send_sort
                mail_type num sz]
        else [])"
  by (simp add: get_mail_list_def Let_def split: sum.splits option.splits)

lemma truthy_opt_iff: "truthy_opt x \<longleftrightarrow> (\<exists>s. x = Some s \<and> s \<noteq> [])"
  by (cases x) auto

subsection \<open>The mail-list query\<close>

text \<open>
  C1. When the client's token is unset (\<open>None\<close>, or empty), \<open>get_mail_list\<close> with any
  arguments returns the dict with code \<open>-1\<close> and the message asking for \<open>get_token\<close>
  first, and hands no request to the transport.
\<close>

theorem get_mail_list_unauthenticated:
  "token self = PNone \<or> token self = PStr [] \<Longrightarrow>
   get_mail_list post self hd_email send_name send_email subject content send_sort
       mail_type num sz
     = (self, [], Inr (PDict [(str ''code'', PInt (- 1)),
                              (str ''message'', PStr token_required)]))"
  by (auto simp: get_mail_list_def error_result_def)

theorem get_mail_list_unauthenticated_witness:
  "get_mail_list (\<lambda>r. Inl (OtherError [])) \<lparr>base_url = API_BASE_URL, token = PNone\<rparr>
       (str ''a@b.c'') None (Some (str ''x@y.z'')) None None (str ''desc'') 0 1 20
     = (\<lparr>base_url = API_BASE_URL, token = PNone\<rparr>, [],
        Inr (PDict [(str ''code'', PInt (- 1)), (str ''message'', PStr token_required)]))"
  using get_mail_list_unauthenticated
    [of "\<lparr>base_url = API_BASE_URL, token = PNone\<rparr>" "\<lambda>r. Inl (OtherError [])"
        "str ''a@b.c''" None "Some (str ''x@y.z'')" None None "str ''desc''" 0 1 20]
  by simp

text \<open>
  C2. Every request \<open>get_mail_list\<close> hands to the transport carries a \<open>size\<close> of at most
  20: a requested size of 50 is sent as 20, a requested size of 20 or less is sent as it
  is.
\<close>

theorem get_mail_list_size_clamped:
  assumes "req \<in> set (fst (snd (get_mail_list post self hd_email send_name send_email
                                  subject content send_sort mail_type num sz)))"
  shows "\<exists>n. payload_field req (str ''size'') = Some (PInt n) \<and> n \<le> 20
             \<and> (sz = 50 \<longrightarrow> n = 20) \<and> (sz \<le> 20 \<longrightarrow> n = sz)"
proof -
  from assms have "req = mail_request self hd_email send_name send_email subject content
                           send_sort mail_type num sz"
    by (simp add: get_mail_list_calls split: if_splits)
  then have "payload_field req (str ''size'') = Some (PInt (min sz 20))"
    by (simp add: payload_field_mail_request map_of_mail_payload)
  then show ?thesis by auto
qed

theorem get_mail_list_size_clamped_witness:
  "mail_request \<lparr>base_url = API_BASE_URL, token = PStr (str ''T'')\<rparr> (str ''a@b.c'')
       None None None None (str ''desc'') 0 1 50
     \<in> set (fst (snd (get_mail_list (\<lambda>req. Inl (RequestException []))
          \<lparr>base_url = API_BASE_URL, token = PStr (str ''T'')\<rparr> (str ''a@b.c'')
          None None None None (str ''desc'') 0 1 50)))
   \<and> payload_field (mail_request \<lparr>base_url = API_BASE_URL, token = PStr (str ''T'')\<rparr>
        (str ''a@b.c'') None None None None (str ''desc'') 0 1 50) (str ''size'')
       = Some (PInt 20)"
proof -
  let ?self = "\<lparr>base_url = API_BASE_URL, token = PStr (str ''T'')\<rparr>"
  let ?post = "\<lambda>req :: request. (Inl (RequestException []) :: exn + response)"
  let ?req = "mail_request ?self (str ''a@b.c'') None None None None (str ''desc'') 0 1 50"
  have m: "?req \<in> set (fst (snd (get_mail_list ?post ?self (str ''a@b.c'')
                     None None None None (str ''desc'') 0 1 50)))"
    by (simp add: get_mail_list_def str_def)
  from get_mail_list_size_clamped [OF m] have "payload_field ?req (str ''size'') = Some (PInt 20)"
    by auto
  with m show ?thesis by simp
qed

text \<open>
  C7. In every request \<open>get_mail_list\<close> hands to the transport, each of the optional
  fields \<open>sendName\<close>, \<open>sendEmail\<close>, \<open>subject\<close> and \<open>content\<close> is a key of the payload
  exactly when the caller gave a non-empty string for it, and the required fields
  \<open>toEmail\<close>, \<open>timeSort\<close>, \<open>type\<close>, \<open>num\<close> and \<open>size\<close> are always keys of it.
\<close>

theorem get_mail_list_optional_fields:
  assumes "req \<in> set (fst (snd (get_mail_list post self hd_email send_name send_email
                                  subject content send_sort mail_type num sz)))"
  shows "((payload_field req (str ''sendName'') \<noteq> None) = (\<exists>s. send_name = Some s \<and> s \<noteq> []))
       \<and> ((payload_field req (str ''sendEmail'') \<noteq> None) = (\<exists>s. send_email = Some s \<and> s \<noteq> []))
       \<and> ((payload_field req (str ''subject'') \<noteq> None) = (\<exists>s. subject = Some s \<and> s \<noteq> []))
       \<and> ((payload_field req (str ''content'') \<noteq> None) = (\<exists>s. content = Some s \<and> s \<noteq> []))
       \<and> payload_field req (str ''toEmail'') = Some (PStr hd_email)
       \<and> payload_field req (str ''timeSort'') = Some (PStr send_sort)
       \<and> payload_field req (str ''type'') = Some (PInt mail_type)
       \<and> payload_field req (str ''num'') = Some (PInt num)
       \<and> payload_field req (str ''size'') \<noteq> None"
proof -
  from assms have r: "req = mail_request self hd_email send_name send_email subject content
                           send_sort mail_type num sz"
    by (simp add: get_mail_list_calls split: if_splits)
  have "(payload_field req (str ''sendName'') \<noteq> None) = (\<exists>s. send_name = Some s \<and> s \<noteq> [])"
    unfolding r by (simp add: payload_field_mail_request map_of_mail_payload truthy_opt_iff)
  moreover
  have "(payload_field req (str ''sendEmail'') \<noteq> None) = (\<exists>s. send_email = Some s \<and> s \<noteq> [])"
    unfolding r by (simp add: payload_field_mail_request map_of_mail_payload truthy_opt_iff)
  moreover
  have "(payload_field req (str ''subject'') \<noteq> None) = (\<exists>s. subject = Some s \<and> s \<noteq> [])"
    unfolding r by (simp add: payload_field_mail_request map_of_mail_payload truthy_opt_iff)
  moreover
  have "(payload_field req (str ''content'') \<noteq> None) = (\<exists>s. content = Some s \<and> s \<noteq> [])"
    unfolding r by (simp add: payload_field_mail_request map_of_mail_payload truthy_opt_iff)
  moreover
  have "payload_field req (str ''toEmail'') = Some (PStr hd_email)"
    unfolding r by (simp add: payload_field_mail_request map_of_mail_payload)
  moreover
  have "payload_field req (str ''timeSort'') = Some (PStr send_sort)"
    unfolding r by (simp add: payload_field_mail_request map_of_mail_payload)
  moreover
  have "payload_field req (str ''type'') = Some (PInt mail_type)"
    unfolding r by (simp add: payload_field_mail_request map_of_mail_payload)
  moreover
  have "payload_field req (str ''num'') = Some (PInt num)"
    unfolding r by (simp add: payload_field_mail_request map_of_mail_payload)
  moreover
  have "payload_field req (str ''size'') \<noteq> None"
    unfolding r by (simp add: payload_field_mail_request map_of_mail_payload)
  ultimately show ?thesis by blast
qed

theorem get_mail_list_optional_fields_witness:
  "mail_request \<lparr>base_url = API_BASE_URL, token = PStr (str ''T'')\<rparr> (str ''a@b.c'')
       None (Some (str ''x@y.z'')) (Some []) None (str ''desc'') 0 1 20
     \<in> set (fst (snd (get_mail_list (\<lambda>req. Inl (RequestException []))
          \<lparr>base_url = API_BASE_URL, token = PStr (str ''T'')\<rparr> (str ''a@b.c'')
          None (Some (str ''x@y.z'')) (Some []) None (str ''desc'') 0 1 20)))
   \<and> payload_field (mail_request \<lparr>base_url = API_BASE_URL, token = PStr (str ''T'')\<rparr>
        (str ''a@b.c'') None (Some (str ''x@y.z'')) (Some []) None (str ''desc'') 0 1 20)
        (str ''sendEmail'') \<noteq> None
   \<and> payload_field (mail_request \<lparr>base_url = API_BASE_URL, token = PStr (str ''T'')\<rparr>
        (str ''a@b.c'') None (Some (str ''x@y.z'')) (Some []) None (str ''desc'') 0 1 20)
        (str ''subject'') = None
   \<and> payload_field (mail_request \<lparr>base_url = API_BASE_URL, token = PStr (str ''T'')\<rparr>
        (str ''a@b.c'') None (Some (str ''x@y.z'')) (Some []) None (str ''desc'') 0 1 20)
        (str ''sendName'') = None"
proof -
  let ?self = "\<lparr>base_url = API_BASE_URL, token = PStr (str ''T'')\<rparr>"
  let ?post = "\<lambda>req :: request. (Inl (RequestException []) :: exn + response)"
  let ?req = "mail_request ?self (str ''a@b.c'') None (Some (str ''x@y.z'')) (Some []) None
                (str ''desc'') 0 1 20"
  have m: "?req \<in> set (fst (snd (get_mail_list ?post ?self (str ''a@b.c'')
                     None (Some (str ''x@y.z'')) (Some []) None (str ''desc'') 0 1 20)))"
    by (simp add: get_mail_list_def str_def)
  from get_mail_list_optional_fields [OF m]
  have "payload_field ?req (str ''sendEmail'') \<noteq> None
        \<and> payload_field ?req (str ''subject'') = None
        \<and> payload_field ?req (str ''sendName'') = None"
    by simp
  with m show ?thesis by simp
qed

text \<open>
  C9. \<open>get_mail_list\<close> returns the client as it received it, whatever the arguments and
  the outcome.  \<open>get_token\<close> never changes \<open>base_url\<close>, and it changes the token only
  when the transport returned a body whose embedded code is 200.
\<close>

theorem get_mail_list_frame:
  "fst (get_mail_list post self hd_email send_name send_email subject content send_sort
          mail_type num sz) = self
   \<and> base_url (fst (get_token post self email password jwt_secret)) = base_url self
   \<and> (token (fst (get_token post self email password jwt_secret)) \<noteq> token self \<longrightarrow>
        (\<exists>r data. post (token_request self email password jwt_secret) = Inr r
            \<and> json_body r = Inr data \<and> py_get data (str ''code'') PNone = Inr (PInt 200)))"
proof -
  have "fst (get_mail_list post self hd_email send_name send_email subject content send_sort
          mail_type num sz) = self"
    by (simp add: get_mail_list_def Let_def split: sum.splits option.splits)
  moreover
  have "base_url (fst (get_token post self email password jwt_secret)) = base_url self"
    by (simp add: get_token_def Let_def split: sum.splits)
  moreover
  have "token (fst (get_token post self email password jwt_secret)) \<noteq> token self \<longrightarrow>
        (\<exists>r data. post (token_request self email password jwt_secret) = Inr r
            \<and> json_body r = Inr data \<and> py_get data (str ''code'') PNone = Inr (PInt 200))"
    by (simp add: get_token_def Let_def split: sum.splits)
  ultimately show ?thesis by blast
qed

theorem get_mail_list_frame_witness:
  "token (fst (get_token token_ok (init None) (str ''a@b.c'') (str ''pw'') []))
     \<noteq> token (init None)
   \<and> (\<exists>r data. token_ok (token_request (init None) (str ''a@b.c'') (str ''pw'') []) = Inr r
         \<and> json_body r = Inr data \<and> py_get data (str ''code'') PNone = Inr (PInt 200))"
proof -
  have t: "token (fst (get_token token_ok (init None) (str ''a@b.c'') (str ''pw'') []))
             \<noteq> token (init None)"
    by (simp add: get_token_def token_ok_def init_def)
  with get_mail_list_frame [of token_ok "init None" "[]" None None None None "[]" 0 0 0
        "str ''a@b.c''" "str ''pw''" "[]"]
  show ?thesis by blast
qed

subsection \<open>Token acquisition\<close>

text \<open>
  C5. When the body of the token response has the embedded code 200 and its
  \<open>data.token\<close> is the string \<open>T\<close>, \<open>get_token\<close> stores exactly \<open>T\<close> as the client's
  token, whatever the HTTP status of the response.
\<close>

theorem get_token_success:
  assumes "post (token_request self email password jwt_secret) = Inr r"
    and "json_body r = Inr (PDict kvs)"
    and "map_of kvs (str ''code'') = Some (PInt 200)"
    and "map_of kvs (str ''data'') = Some (PDict d)"
    and "map_of d (str ''token'') = Some (PStr T)"
  shows "get_token post self email password jwt_secret
           = (self\<lparr>token := PStr T\<rparr>, [token_request self email password jwt_secret], PDict kvs)"
  using assms by (simp add: get_token_def)

theorem get_token_success_witness:
  "get_token token_ok (init None) (str ''a@b.c'') (str ''pw'') []
     = (\<lparr>base_url = API_BASE_URL, token = PStr (str ''T'')\<rparr>,
        [token_request (init None) (str ''a@b.c'') (str ''pw'') []],
        PDict [(str ''code'', PInt 200),
               (str ''data'', PDict [(str ''token'', PStr (str ''T''))])])"
proof -
  let ?r = "\<lparr>status_code = 500, status_error = [],
     json_body = Inr (PDict [(str ''code'', PInt 200),
                             (str ''data'', PDict [(str ''token'', PStr (str ''T''))])])\<rparr>"
  have "get_token token_ok (init None) (str ''a@b.c'') (str ''pw'') []
     = ((init None)\<lparr>token := PStr (str ''T'')\<rparr>,
        [token_request (init None) (str ''a@b.c'') (str ''pw'') []],
        PDict [(str ''code'', PInt 200),
               (str ''data'', PDict [(str ''token'', PStr (str ''T''))])])"
    by (rule get_token_success [where r = ?r and d = "[(str ''token'', PStr (str ''T''))]"])
       (simp_all add: token_ok_def)
  moreover have "rstrip_slash API_BASE_URL = API_BASE_URL"
    by (simp add: rstrip_slash_def API_BASE_URL_def str_def)
  ultimately show ?thesis by (simp add: init_def)
qed


text \<open>
  C6. When the transport raises, when the body cannot be decoded, or when the body's
  embedded code is not 200, \<open>get_token\<close> leaves the client as it was, has handed one
  request to the transport, and returns the code \<open>-1\<close> dict with the exception's text in
  the first two cases and the server's own dict, message included, in the third.
\<close>

theorem get_token_failure:
  assumes "(\<exists>e. post (token_request self email password jwt_secret) = Inl e
                \<and> res = error_result (exn_text e))
         \<or> (\<exists>r e. post (token_request self email password jwt_secret) = Inr r
                \<and> json_body r = Inl e \<and> res = error_result (exn_text e))
         \<or> (\<exists>r kvs. post (token_request self email password jwt_secret) = Inr r
                \<and> json_body r = Inr (PDict kvs)
                \<and> map_of kvs (str ''code'') \<noteq> Some (PInt 200) \<and> res = PDict kvs)"
  shows "get_token post self email password jwt_secret
           = (self, [token_request self email password jwt_secret], res)"
  using assms by (auto simp: get_token_def split: option.splits)

theorem get_token_failure_witness:
  "get_token token_denied (init None) (str ''a@b.c'') (str ''pw'') []
     = (init None, [token_request (init None) (str ''a@b.c'') (str ''pw'') []],
        PDict [(str ''code'', PInt 401), (str ''message'', PStr (str ''bad credentials''))])
   \<and> token (init None) = PNone
   \<and> get_token (\<lambda>req. Inl (OtherError (str ''timed out''))) (init None) (str ''a@b.c'')
          (str ''pw'') []
     = (init None, [token_request (init None) (str ''a@b.c'') (str ''pw'') []],
        PDict [(str ''code'', PInt (- 1)), (str ''message'', PStr (str ''timed out''))])"
proof -
  have "get_token token_denied (init None) (str ''a@b.c'') (str ''pw'') []
     = (init None, [token_request (init None) (str ''a@b.c'') (str ''pw'') []],
        PDict [(str ''code'', PInt 401), (str ''message'', PStr (str ''bad credentials''))])"
    by (rule get_token_failure) (simp add: token_denied_def)
  moreover
  have "get_token (\<lambda>req. Inl (OtherError (str ''timed out''))) (init None) (str ''a@b.c'')
          (str ''pw'') []
     = (init None, [token_request (init None) (str ''a@b.c'') (str ''pw'') []],
        PDict [(str ''code'', PInt (- 1)), (str ''message'', PStr (str ''timed out''))])"
    by (rule get_token_failure) (simp add: error_result_def)
  ultimately show ?thesis by (simp add: init_def)
qed

subsection \<open>Reading the mail-list result\<close>

text \<open>
  C3. A result with the embedded code 200 whose \<open>data\<close> is a list of messages and one
  whose \<open>data\<close> is a dict holding that list under \<open>list\<close> give the same extracted list,
  the messages in their order.
\<close>

theorem extract_mail_list_shapes:
  assumes "map_of bare (str ''code'') = Some (PInt 200)"
    and "map_of wrapped (str ''code'') = Some (PInt 200)"
    and "map_of bare (str ''data'') = Some (PList mails)"
    and "map_of wrapped (str ''data'') = Some (PDict d)"
    and "map_of d (str ''list'') = Some (PList mails)"
  shows "extract_mail_list (PDict bare) = Inr (PList mails)
       \<and> extract_mail_list (PDict wrapped) = Inr (PList mails)
       \<and> result_mail_list (PDict bare) = Inr (Some (PList mails))
       \<and> result_mail_list (PDict wrapped) = Inr (Some (PList mails))"
  using assms by (simp add: extract_mail_list_def result_mail_list_def)

theorem extract_mail_list_shapes_witness:
  "result_mail_list (PDict [(str ''code'', PInt 200),
       (str ''data'', PList [PDict [(str ''subject'', PStr (str ''A''))]])])
     = Inr (Some (PList [PDict [(str ''subject'', PStr (str ''A''))]]))
   \<and> result_mail_list (PDict [(str ''code'', PInt 200),
       (str ''data'', PDict [(str ''list'', PList [PDict [(str ''subject'', PStr (str ''A''))]])])])
     = Inr (Some (PList [PDict [(str ''subject'', PStr (str ''A''))]]))"
  using extract_mail_list_shapes
    [of "[(str ''code'', PInt 200),
          (str ''data'', PList [PDict [(str ''subject'', PStr (str ''A''))]])]"
        "[(str ''code'', PInt 200),
          (str ''data'', PDict [(str ''list'', PList [PDict [(str ''subject'', PStr (str ''A''))]])])]"
        "[PDict [(str ''subject'', PStr (str ''A''))]]"
        "[(str ''list'', PList [PDict [(str ''subject'', PStr (str ''A''))]])]"]
  by simp

lemma str_contains_sublist: "str_contains t s = sublist t s"
  by (induction s) (auto simp: sublist_Cons_right)

lemma subject_matches_message:
  "is_message m \<Longrightarrow>
   subject_matches lower SUBJECT m = Inr (sublist (lower SUBJECT) (lower (subject_of m)))"
  by (cases m)
     (auto simp: subject_matches_def str_contains_sublist split: option.splits pyval.splits)

lemma filter_subject_messages:
  "\<forall>m \<in> set mails. is_message m \<Longrightarrow>
   filter_subject lower SUBJECT mails
     = Inr (filter (\<lambda>m. sublist (lower SUBJECT) (lower (subject_of m))) mails)"
  by (induction mails) (simp_all add: subject_matches_message)

lemma filter_subject_kept:
  "filter_subject lower SUBJECT mails = Inr kept \<Longrightarrow> m \<in> set kept \<Longrightarrow>
   subject_matches lower SUBJECT m = Inr True"
proof (induction mails arbitrary: kept)
  case Nil
  then show ?case by simp
next
  case (Cons a mails)
  then show ?case
    by (auto split: sum.splits if_splits)
qed

text \<open>
  C4. For a list of messages and a non-empty target, the local filter returns exactly the
  messages whose lower-cased subject has the lower-cased target as a contiguous part
  (\<open>sublist t s\<close> says that \<open>s\<close> is \<open>pre @ t @ suf\<close> for some \<open>pre\<close> and \<open>suf\<close>), in their
  original order.
\<close>

theorem local_filter_correct:
  assumes "SUBJECT \<noteq> []" and "\<forall>m \<in> set mails. is_message m"
  shows "local_filter lower True SUBJECT (PList mails)
           = Inr (PList (filter (\<lambda>m. sublist (lower SUBJECT) (lower (subject_of m))) mails))"
  using assms
  by (cases mails) (simp_all add: local_filter_def filter_subject_messages del: filter_subject.simps)

theorem local_filter_correct_witness:
  "local_filter ascii_lower True (str ''verify your email'')
       (PList [mail_verify, mail_verify_now, mail_unrelated])
     = Inr (PList [mail_verify, mail_verify_now])"
proof -
  have "local_filter ascii_lower True (str ''verify your email'')
          (PList [mail_verify, mail_verify_now, mail_unrelated])
        = Inr (PList (filter (\<lambda>m. sublist (ascii_lower (str ''verify your email''))
                                       (ascii_lower (subject_of m)))
                        [mail_verify, mail_verify_now, mail_unrelated]))"
    by (rule local_filter_correct)
       (simp_all add: mail_verify_def mail_verify_now_def mail_unrelated_def)
  also have "filter (\<lambda>m. sublist (ascii_lower (str ''verify your email''))
                              (ascii_lower (subject_of m)))
               [mail_verify, mail_verify_now, mail_unrelated]
             = [mail_verify, mail_verify_now]"
    by (simp add: mail_verify_def mail_verify_now_def mail_unrelated_def ascii_lower_def
          str_def str_contains_sublist [symmetric])
  finally show ?thesis .
qed

text \<open>A subject that is not a string, such as \<open>None\<close>, has no \<open>lower\<close>: the comprehension
  raises.\<close>

lemma local_filter_null_subject:
  "local_filter lower True (str ''a'') (PList [PDict [(str ''subject'', PNone)]])
     = Inl (no_attribute PNone ''lower'')"
  by (simp add: local_filter_def subject_matches_def)

text \<open>
  C10. When the local filter runs with a non-empty target, a message without a
  \<open>subject\<close> field is in no case among the kept ones: its subject reads as the empty
  string.  The hypothesis on \<open>lower\<close> is a fact of \<open>str.lower\<close>: only the empty string
  has an empty lower-case form.
\<close>

theorem local_filter_missing_subject:
  assumes "SUBJECT \<noteq> []" and "\<forall>s. (lower s = []) = (s = [])"
    and "local_filter lower True SUBJECT (PList mails) = Inr (PList kept)"
    and "map_of kvs (str ''subject'') = None"
  shows "PDict kvs \<notin> set kept"
proof
  assume m: "PDict kvs \<in> set kept"
  then have "mails \<noteq> []" using assms(3) by (auto simp: local_filter_def)
  with assms(1,3) have "filter_subject lower SUBJECT mails = Inr kept"
    by (simp add: local_filter_def split: sum.splits)
  from filter_subject_kept [OF this m] have "str_contains (lower SUBJECT) (lower [])"
    using assms(4) by (simp add: subject_matches_def)
  moreover from assms(2) have "lower [] = []" by simp
  moreover from assms(1,2) have "lower SUBJECT \<noteq> []" by simp
  ultimately show False by simp
qed

theorem local_filter_missing_subject_witness:
  "local_filter ascii_lower True (str ''verify'') (PList [mail_no_subject, mail_verify])
     = Inr (PList [mail_verify])
   \<and> mail_no_subject \<notin> set [mail_verify]"
proof -
  have r: "local_filter ascii_lower True (str ''verify'') (PList [mail_no_subject, mail_verify])
             = Inr (PList [mail_verify])"
    by (simp add: local_filter_def subject_matches_def mail_no_subject_def mail_verify_def
          ascii_lower_def str_def)
  have "PDict [(str ''sendEmail'', PStr (str ''verify@x.y''))] \<notin> set [mail_verify]"
    by (rule local_filter_missing_subject [OF _ _ r [unfolded mail_no_subject_def]])
       (simp_all add: ascii_lower_def)
  with r show ?thesis by (simp add: mail_no_subject_def)
qed

subsection \<open>The UTF-8 codec\<close>








lemma utf8_char_None: "utf8_char c = None \<longleftrightarrow> \<not> scalar c"
  by (simp add: scalar_def utf8_char_def)








lemma utf8_encode_None: "\<not> list_all scalar s \<Longrightarrow> utf8_encode s = None"
  by (induction s) (auto simp: utf8_char_None split: option.splits)

subsection \<open>Strings\<close>

lemma hex_value_digit: "d < 16 \<Longrightarrow> hex_value (hex_digit d) = Some d"
  by (simp add: hex_value_def hex_digit_def)

lemma decode_control:
  assumes "c < 0x20"
  shows "decode_uXXXX [hex_digit (c div 4096 mod 16), hex_digit (c div 256 mod 16),
                       hex_digit (c div 16 mod 16), hex_digit (c mod 16)] = Some (c, [])"
proof -
  from assms have z: "c div 4096 = 0" "c div 256 = 0" "c div 16 < 16" by simp_all
  have "c div 16 * 16 + c mod 16 = c" by simp
  then show ?thesis using z by (simp add: hex_value_digit)
qed

lemma scanstring_quote: "scanstring acc (0x22 # cs) = Some (rev acc, cs)"
  by simp

lemma scanstring_plain:
  "c \<noteq> 0x22 \<Longrightarrow> c \<noteq> 0x5C \<Longrightarrow> \<not> c < 0x20 \<Longrightarrow> scanstring acc (c # cs) = scanstring (c # acc) cs"
  by simp

lemma scanstring_simple:
  "scanstring acc (0x5C # 0x22 # r) = scanstring (0x22 # acc) r"
  "scanstring acc (0x5C # 0x5C # r) = scanstring (0x5C # acc) r"
  "scanstring acc (0x5C # 0x62 # r) = scanstring (0x08 # acc) r"
  "scanstring acc (0x5C # 0x66 # r) = scanstring (0x0C # acc) r"
  "scanstring acc (0x5C # 0x6E # r) = scanstring (0x0A # acc) r"
  "scanstring acc (0x5C # 0x72 # r) = scanstring (0x0D # acc) r"
  "scanstring acc (0x5C # 0x74 # r) = scanstring (0x09 # acc) r"
  by simp_all

lemma scanstring_u:
  "decode_uXXXX [h1, h2, h3, h4] = Some (uni, x) \<Longrightarrow> uni < 0xD800 \<Longrightarrow>
   scanstring acc (0x5C # 0x75 # h1 # h2 # h3 # h4 # r) = scanstring (uni # acc) r"
  by (simp del: decode_uXXXX.simps)

lemma scanstring_escape_char:
  "scanstring acc (escape_char c @ r) = scanstring (c # acc) r"
proof -
  consider "c = 0x5C" | "c = 0x22" | "c = 0x08" | "c = 0x0C" | "c = 0x0A" | "c = 0x0D" | "c = 0x09"
    | "c < 0x20" "c \<noteq> 0x08" "c \<noteq> 0x0C" "c \<noteq> 0x0A" "c \<noteq> 0x0D" "c \<noteq> 0x09"
    | "\<not> c < 0x20" "c \<noteq> 0x5C" "c \<noteq> 0x22"
    by blast
  then show ?thesis
  proof cases
    case 8
    then have e: "escape_char c = [0x5C, 0x75, hex_digit (c div 4096 mod 16),
        hex_digit (c div 256 mod 16), hex_digit (c div 16 mod 16), hex_digit (c mod 16)]"
      by (simp add: escape_char_def)
    from 8 have "c < 0xD800" by simp
    with decode_control [OF 8(1)] show ?thesis
      unfolding e using scanstring_u by (simp del: scanstring.simps decode_uXXXX.simps)
  next
    case 9
    then have "escape_char c = [c]" by (simp add: escape_char_def)
    with 9 show ?thesis using scanstring_plain [of c acc r] by (simp del: scanstring.simps)
  qed (simp_all add: escape_char_def scanstring_simple del: scanstring.simps)
qed

lemma scanstring_escaped:
  "scanstring acc (concat (map escape_char s) @ 0x22 # r) = Some (rev acc @ s, r)"
proof (induction s arbitrary: acc)
  case Nil
  show ?case by (simp only: list.map concat.simps append.simps scanstring_quote) simp
next
  case (Cons c s)
  have "scanstring acc (concat (map escape_char (c # s)) @ 0x22 # r)
          = scanstring acc (escape_char c @ (concat (map escape_char s) @ 0x22 # r))"
    by simp
  also have "\<dots> = scanstring (c # acc) (concat (map escape_char s) @ 0x22 # r)"
    by (rule scanstring_escape_char)
  also have "\<dots> = Some (rev (c # acc) @ s, r)" by (rule Cons.IH)
  finally show ?case by simp
qed

lemma scanstring_basestring:
  "encode_basestring s @ r = 0x22 # t \<Longrightarrow> scanstring [] t = Some (s, r)"
  using scanstring_escaped [of "[]" s r] by (simp add: encode_basestring_def)

subsection \<open>Integers\<close>

declare digits.simps [simp del]

lemma digits_small: "n < 10 \<Longrightarrow> digits n = [48 + n]"
  by (subst digits.simps) simp

lemma digits_big: "\<not> n < 10 \<Longrightarrow> digits n = digits (n div 10) @ [48 + n mod 10]"
  by (subst digits.simps) simp

lemma digits_all: "list_all is_digit (digits n)"
proof (induction n rule: digits.induct)
  case (1 n)
  show ?case
  proof (cases "n < 10")
    case True
    then show ?thesis by (simp add: digits_small is_digit_def)
  next
    case False
    have "n mod 10 < 10" by simp
    then have "is_digit (48 + n mod 10)" unfolding is_digit_def by linarith
    with False 1 show ?thesis by (simp add: digits_big)
  qed
qed










subsection \<open>Values\<close>































lemma non_ascii_Nil [simp]: "non_ascii [] = []"
  by (simp add: non_ascii_def)

lemma non_ascii_append: "non_ascii (a @ b) = non_ascii a @ non_ascii b"
  by (simp add: non_ascii_def)

lemma non_ascii_Cons: "non_ascii (c # s) = (if 0x80 \<le> c then c # non_ascii s else non_ascii s)"
  by (simp add: non_ascii_def)

lemma hex_digit_ascii: "d < 16 \<Longrightarrow> hex_digit d < 0x80"
  by (simp add: hex_digit_def)

lemma non_ascii_escape_char: "non_ascii (escape_char c) = non_ascii [c]"
proof (cases "c < 0x20")
  case True
  then have "hex_digit (c div 4096 mod 16) < 0x80" "hex_digit (c div 256 mod 16) < 0x80"
    "hex_digit (c div 16 mod 16) < 0x80" "hex_digit (c mod 16) < 0x80"
    by (simp_all add: hex_digit_ascii)
  with True show ?thesis by (simp add: escape_char_def non_ascii_Cons non_ascii_def)
next
  case False
  then show ?thesis by (simp add: escape_char_def non_ascii_def)
qed

lemma non_ascii_basestring: "non_ascii (encode_basestring s) = non_ascii s"
proof -
  have "non_ascii (concat (map escape_char s)) = non_ascii s"
  proof (induction s)
    case Nil
    show ?case by simp
  next
    case (Cons c s)
    have "non_ascii (concat (map escape_char (c # s)))
            = non_ascii (escape_char c) @ non_ascii (concat (map escape_char s))"
      by (simp add: non_ascii_append)
    also have "\<dots> = non_ascii [c] @ non_ascii s"
      by (simp only: non_ascii_escape_char Cons.IH)
    finally show ?case by (simp add: non_ascii_def)
  qed
  then show ?thesis by (simp add: encode_basestring_def non_ascii_append non_ascii_Cons)
qed

lemma non_ascii_digits: "non_ascii (digits n) = []"
proof -
  have "\<forall>c \<in> set (digits n). is_digit c" using digits_all [of n] by (simp add: list_all_iff)
  then show ?thesis by (auto simp: non_ascii_def is_digit_def filter_empty_conv)
qed

lemma non_ascii_int_repr: "non_ascii (int_repr i) = []"
  by (simp add: int_repr_def non_ascii_Cons non_ascii_digits)

lemma non_ascii_newline_indent: "non_ascii (newline_indent l) = []"
  by (simp add: newline_indent_def non_ascii_def)

lemma non_ascii_encode:
  "non_ascii (encode level v) = non_ascii (chars v)"
  "non_ascii (encode_items level vs) = non_ascii (chars_items vs)"
  "non_ascii (encode_pairs level kvs) = non_ascii (chars_pairs kvs)"
proof (induction level v and level vs and level kvs
    rule: encode_encode_items_encode_pairs.induct)
  case (3 level i)
  show ?case by (simp add: non_ascii_int_repr)
next
  case (4 level s)
  show ?case by (simp add: non_ascii_basestring)
next
  case (6 level v vs)
  then show ?case by (simp add: non_ascii_append non_ascii_Cons non_ascii_newline_indent)
next
  case (8 level kv kvs)
  then show ?case by (simp add: non_ascii_append non_ascii_Cons non_ascii_newline_indent)
next
  case (10 level v)
  then show ?case by (simp add: non_ascii_append)
next
  case (11 level v w vs)
  then show ?case by (simp add: non_ascii_append non_ascii_Cons non_ascii_newline_indent)
next
  case (13 level k v)
  then show ?case
    by (simp add: non_ascii_append non_ascii_basestring str_def non_ascii_Cons)
next
  case (14 level k v kv kvs)
  then show ?case
    by (simp add: non_ascii_append non_ascii_basestring str_def non_ascii_Cons
        non_ascii_newline_indent)
qed (simp_all add: str_def non_ascii_def)


subsection \<open>Persistence\<close>

text \<open>A surrogate in a key or a string of the object stops the write.\<close>

lemma save_emails_unencodable:
  assumes "writable fs (output_name timestamp filename)"
    and "c \<in> set (chars mail_list)" and "0xD800 \<le> c" and "c \<le> 0xDFFF"
  shows "save_emails_to_json timestamp fs mail_list filename
           = Inl (UnicodeEncodeError (str ''surrogates not allowed''))"
proof -
  from assms(2,3) have "c \<in> set (non_ascii (chars mail_list))" by (simp add: non_ascii_def)
  then have "c \<in> set (non_ascii (dumps mail_list))"
    unfolding dumps_def by (simp only: non_ascii_encode)
  then have "c \<in> set (dumps mail_list)" by (simp add: non_ascii_def)
  moreover from assms(3,4) have "\<not> scalar c" by (simp add: scalar_def)
  ultimately have "\<not> list_all scalar (dumps mail_list)" by (auto simp: list_all_iff)
  then have "utf8_encode (dumps mail_list) = None" by (rule utf8_encode_None)
  with assms(1) show ?thesis by (simp add: save_emails_to_json_def Let_def)
qed




end
